theory Spec2Isabelle
  imports Main
begin

text \<open>
  The bundling step \<^verbatim>\<open>src/lib/steps/rollup.ts\<close> of ng-packagr: the classifier
  \<^verbatim>\<open>externalModuleIdStrategy\<close> that tells the bundler which imports stay external, the
  resolver \<^verbatim>\<open>umdModuleIdStrategy\<close> that names the global variable of an external module
  in a UMD bundle, and the \<^verbatim>\<open>onwarn\<close> handler for the bundler's diagnostics. The
  definitions come first, in the order of the source; the properties follow.
\<close>

section \<open>Strings and arrays of the host language\<close>

text \<open>
  A module identifier is a JavaScript string. It is modelled as a HOL \<open>string\<close>, one
  \<open>char\<close> per code unit, which covers every identifier whose code units are below 256
  (package names and file paths). The functions below are the built-in string and array
  methods that \<^verbatim>\<open>src/lib/steps/rollup.ts\<close> calls, with the arguments it passes.
\<close>

text \<open>\<^verbatim>\<open>s.startsWith(p)\<close>: \<open>p\<close> occurs in \<open>s\<close> at position 0.\<close>

fun startsWith :: "string \<Rightarrow> string \<Rightarrow> bool" where
  "startsWith s [] = True"
| "startsWith [] (p # ps) = False"
| "startsWith (c # cs) (p # ps) = (c = p \<and> startsWith cs ps)"

text \<open>
  \<^verbatim>\<open>s.indexOf(p)\<close>: the least position at which \<open>p\<close> occurs in \<open>s\<close>, and \<open>-1\<close> when it
  occurs nowhere.
\<close>

fun indexOf :: "string \<Rightarrow> string \<Rightarrow> int" where
  "indexOf [] p = (if p = [] then 0 else - 1)"
| "indexOf (c # cs) p =
     (if startsWith (c # cs) p then 0
      else (let i = indexOf cs p in if i < 0 then - 1 else i + 1))"

text \<open>\<^verbatim>\<open>xs.some(f)\<close>: some element of the array satisfies \<open>f\<close>.\<close>

fun array_some :: "('a \<Rightarrow> bool) \<Rightarrow> 'a list \<Rightarrow> bool" where
  "array_some f [] = False"
| "array_some f (x # xs) = (if f x then True else array_some f xs)"

text \<open>
  \<^verbatim>\<open>s.replace(p, r)\<close> with a string pattern: only the first occurrence of \<open>p\<close> is
  replaced, and a string without any occurrence is returned unchanged. The replacement
  is copied as it is (the one replacement the source passes, \<open>.\<close>, has no \<open>$\<close> pattern).
\<close>

fun replace :: "string \<Rightarrow> string \<Rightarrow> string \<Rightarrow> string" where
  "replace [] p r = (if p = [] then r else [])"
| "replace (c # cs) p r =
     (if startsWith (c # cs) p then r @ drop (length p) (c # cs)
      else c # replace cs p r)"

text \<open>
  A substitution \<^verbatim>\<open>${v}\<close> in a template literal converts \<open>v\<close> to a string; the value
  \<^verbatim>\<open>undefined\<close> (\<open>None\<close>) becomes the text \<open>undefined\<close>.
\<close>

definition template_value :: "string option \<Rightarrow> string" where
  "template_value v = (case v of None \<Rightarrow> ''undefined'' | Some s \<Rightarrow> s)"

text \<open>
  The truth value of a string-or-undefined in a condition: \<^verbatim>\<open>undefined\<close> and the empty
  string are falsy, every other string is truthy.
\<close>

definition truthy :: "string option \<Rightarrow> bool" where
  "truthy v = (case v of None \<Rightarrow> False | Some s \<Rightarrow> s \<noteq> [])"

text \<open>
  A default parameter \<^verbatim>\<open>(x = d)\<close>: an argument that is left out (\<open>None\<close>) is bound to \<open>d\<close>.
\<close>

definition default_param :: "'a \<Rightarrow> 'a option \<Rightarrow> 'a" where
  "default_param d arg = (case arg of None \<Rightarrow> d | Some v \<Rightarrow> v)"

section \<open>Absolute paths\<close>

text \<open>
  \<^verbatim>\<open>path.isAbsolute\<close> belongs to the runtime's \<^verbatim>\<open>path\<close> module, which
  \<^verbatim>\<open>rollup.ts\<close> imports; which rules it applies depends on the platform the build
  runs on. The classifier below therefore takes it as a parameter. The two
  implementations the runtime ships are given here for evaluation on concrete
  identifiers: on POSIX a path is absolute when it starts with \<open>/\<close>; on Windows when it
  starts with \<open>/\<close> or a backslash, or with a drive letter, a colon and one of the two
  separators.
\<close>

definition posix_isAbsolute :: "string \<Rightarrow> bool" where
  "posix_isAbsolute p = (case p of [] \<Rightarrow> False | c # _ \<Rightarrow> c = CHR ''/'')"

definition isPathSeparator :: "char \<Rightarrow> bool" where
  "isPathSeparator c = (c = CHR ''/'' \<or> c = CHR 0x5C)"

definition isWindowsDeviceRoot :: "char \<Rightarrow> bool" where
  "isWindowsDeviceRoot c =
     ((65 \<le> (of_char c :: nat) \<and> (of_char c :: nat) \<le> 90) \<or>
      (97 \<le> (of_char c :: nat) \<and> (of_char c :: nat) \<le> 122))"

definition win32_isAbsolute :: "string \<Rightarrow> bool" where
  "win32_isAbsolute p =
     (case p of
        [] \<Rightarrow> False
      | c # rest \<Rightarrow>
          isPathSeparator c \<or>
          (case rest of
             c1 # c2 # _ \<Rightarrow> isWindowsDeviceRoot c \<and> c1 = CHR '':'' \<and> isPathSeparator c2
           | _ \<Rightarrow> False))"

section \<open>Regular expressions\<close>

text \<open>
  The patterns of \<^verbatim>\<open>umdModuleIdStrategy\<close> are regular-expression literals without
  flags. \<open>regex\<close> has one constructor for each construct they use, and \<open>rmatch\<close> is the
  backtracking matcher of the language for that fragment: a matcher maps a state (the
  input still to be read, and the captures so far) to the list of states in which a
  match can end, in the order in which backtracking tries them. The first element is
  the match the language reports.
\<close>

datatype regex =
    Lit string \<comment> \<open>literal characters, escaped or not: \<^verbatim>\<open>\@angular\/\<close>\<close>
  | Dot \<comment> \<open>\<^verbatim>\<open>.\<close>\<close>
  | NoneOf string \<comment> \<open>a negated class: \<^verbatim>\<open>[^\/]\<close>\<close>
  | Bol \<comment> \<open>\<^verbatim>\<open>^\<close>\<close>
  | Eol \<comment> \<open>\<^verbatim>\<open>$\<close>\<close>
  | Seq "regex list" \<comment> \<open>one term after another\<close>
  | Opt regex \<comment> \<open>\<^verbatim>\<open>r?\<close>, greedy\<close>
  | Star regex \<comment> \<open>\<^verbatim>\<open>r*\<close>, greedy\<close>
  | Plus regex \<comment> \<open>\<^verbatim>\<open>r+\<close>, greedy\<close>
  | Group nat regex \<comment> \<open>\<^verbatim>\<open>(r)\<close>, numbered by its opening parenthesis\<close>

type_synonym captures = "nat \<Rightarrow> string option"
type_synonym mstate = "string \<times> captures"
type_synonym matcher = "mstate \<Rightarrow> mstate list"

text \<open>
  \<^verbatim>\<open>.\<close> matches every character but a line terminator. Line feed and carriage return
  are the two line terminators below 256.
\<close>

definition isLineTerminator :: "char \<Rightarrow> bool" where
  "isLineTerminator c = (c = CHR 0x0A \<or> c = CHR 0x0D)"

fun seq_matchers :: "matcher list \<Rightarrow> matcher" where
  "seq_matchers [] st = [st]"
| "seq_matchers (m # ms) st = concat (map (seq_matchers ms) (m st))"

text \<open>
  A quantifier that may match nothing gives up an iteration that reads no character;
  \<open>advances st st'\<close> says that \<open>st'\<close> has read past \<open>st\<close>. A greedy quantifier tries one
  more iteration before it tries to stop.
\<close>

definition advances :: "mstate \<Rightarrow> mstate \<Rightarrow> bool" where
  "advances st st' = (length (fst st') < length (fst st))"

function star_matcher :: "matcher \<Rightarrow> matcher" where
  "star_matcher m st =
     concat (map (\<lambda>st'. if advances st st' then star_matcher m st' else []) (m st)) @ [st]"
  by pat_completeness auto
termination
  by (relation "measure (\<lambda>(m, st). length (fst st))") (auto simp: advances_def)

declare star_matcher.simps [simp del]

definition opt_matcher :: "matcher \<Rightarrow> matcher" where
  "opt_matcher m st = filter (advances st) (m st) @ [st]"

definition group_matcher :: "nat \<Rightarrow> matcher \<Rightarrow> matcher" where
  "group_matcher n m st =
     map (\<lambda>(s', c'). (s', c'(n \<mapsto> take (length (fst st) - length s') (fst st)))) (m st)"

primrec rmatch :: "string \<Rightarrow> regex \<Rightarrow> matcher" where
  "rmatch inp (Lit l) = (\<lambda>(s, c). if startsWith s l then [(drop (length l) s, c)] else [])"
| "rmatch inp Dot =
     (\<lambda>(s, c). case s of [] \<Rightarrow> [] | x # xs \<Rightarrow> if isLineTerminator x then [] else [(xs, c)])"
| "rmatch inp (NoneOf cs) =
     (\<lambda>(s, c). case s of [] \<Rightarrow> [] | x # xs \<Rightarrow> if x \<in> set cs then [] else [(xs, c)])"
| "rmatch inp Bol = (\<lambda>(s, c). if length s = length inp then [(s, c)] else [])"
| "rmatch inp Eol = (\<lambda>(s, c). if s = [] then [(s, c)] else [])"
| "rmatch inp (Seq rs) = seq_matchers (map (rmatch inp) rs)"
| "rmatch inp (Opt r) = opt_matcher (rmatch inp r)"
| "rmatch inp (Star r) = star_matcher (rmatch inp r)"
| "rmatch inp (Plus r) = seq_matchers [rmatch inp r, star_matcher (rmatch inp r)]"
| "rmatch inp (Group n r) = group_matcher n (rmatch inp r)"

text \<open>
  \<^verbatim>\<open>r.exec(inp)\<close> for a pattern without the global or sticky flag: the match is
  tried at position 0, then 1, and so on up to the end of the input. The result is
  \<open>None\<close> (\<^verbatim>\<open>null\<close>) when no position matches, and otherwise the match array:
  index 0 holds the matched text, index \<open>n\<close> the text of group \<open>n\<close>, and \<open>None\<close> stands
  for \<^verbatim>\<open>undefined\<close>. \<^verbatim>\<open>r.test(inp)\<close> says whether \<^verbatim>\<open>exec\<close> finds a match.
\<close>

fun exec_from :: "regex \<Rightarrow> string \<Rightarrow> string \<Rightarrow> captures option" where
  "exec_from r inp [] =
     (case rmatch inp r ([], Map.empty) of
        [] \<Rightarrow> None
      | (s', c) # _ \<Rightarrow> Some (c(0 \<mapsto> [])))"
| "exec_from r inp (x # xs) =
     (case rmatch inp r (x # xs, Map.empty) of
        [] \<Rightarrow> exec_from r inp xs
      | (s', c) # _ \<Rightarrow> Some (c(0 \<mapsto> take (length (x # xs) - length s') (x # xs))))"

definition RegExp_exec :: "regex \<Rightarrow> string \<Rightarrow> captures option" where
  "RegExp_exec r inp = exec_from r inp inp"

definition RegExp_test :: "regex \<Rightarrow> string \<Rightarrow> bool" where
  "RegExp_test r inp = (RegExp_exec r inp \<noteq> None)"

section \<open>The external-module classifier\<close>

text \<open>
  \<^verbatim>\<open>externalModuleIdStrategy(moduleId, embedded = [])\<close>. The second argument is
  optional: \<open>None\<close> is the call that leaves it out, and the default parameter then
  binds the empty array.
\<close>

definition externalModuleIdStrategy ::
    "(string \<Rightarrow> bool) \<Rightarrow> string \<Rightarrow> string list option \<Rightarrow> bool" where
  "externalModuleIdStrategy isAbsolute moduleId embedded_arg =
     (let embedded = default_param [] embedded_arg in
      if isAbsolute moduleId \<or>
         startsWith moduleId ''.'' \<or>
         startsWith moduleId ''/'' \<or>
         0 \<le> indexOf moduleId ''commonjsHelpers'' \<or>
         array_some (\<lambda>x. x = moduleId) embedded
      then False
      else True)"

text \<open>The five operands of that guard, in the order of the source.\<close>

definition notExternalConditions :: "(string \<Rightarrow> bool) \<Rightarrow> string \<Rightarrow> string list \<Rightarrow> bool list" where
  "notExternalConditions isAbsolute moduleId embedded =
     [isAbsolute moduleId,
      startsWith moduleId ''.'',
      startsWith moduleId ''/'',
      0 \<le> indexOf moduleId ''commonjsHelpers'',
      array_some (\<lambda>x. x = moduleId) embedded]"

section \<open>The global-name resolver\<close>

text \<open>
  \<^verbatim>\<open>umdModuleIdStrategy(moduleId, umdModuleIds = {})\<close>. The override table has the
  declared type \<^verbatim>\<open>{ [key: string]: string }\<close>: a map from keys to strings, where
  looking up a key that is absent gives \<^verbatim>\<open>undefined\<close> (names that an object inherits
  from its prototype are not strings and are outside that type). The second argument is
  optional, and the default parameter binds the empty table. The assignments in the
  conditions of the source are the \<open>let\<close> and the \<open>case\<close> bindings here. The eight
  patterns, in the order of the source:
  \<^item> \<^verbatim>\<open>/^\@angular\/platform-browser-dynamic(\/?.*)/\<close>
  \<^item> \<^verbatim>\<open>/^\@angular\/platform-browser(\/?.*)/\<close>
  \<^item> \<^verbatim>\<open>/^\@angular\/(.+)/\<close>
  \<^item> \<^verbatim>\<open>/^rxjs\/(add\/)?observable/\<close>
  \<^item> \<^verbatim>\<open>/^rxjs\/scheduler/\<close>
  \<^item> \<^verbatim>\<open>/^rxjs\/symbol/\<close>
  \<^item> \<^verbatim>\<open>/^rxjs\/(add\/)?operator/\<close>
  \<^item> \<^verbatim>\<open>/^rxjs\/[^\/]+$/\<close>
\<close>

definition umdModuleIdStrategy :: "string \<Rightarrow> (string \<rightharpoonup> string) option \<Rightarrow> string" where
  "umdModuleIdStrategy moduleId umdModuleIds_arg =
     (let umdModuleIds = default_param Map.empty umdModuleIds_arg;
          nameProvided = umdModuleIds moduleId
      in
      if truthy nameProvided then the nameProvided
      else
      (case RegExp_exec
              (Seq [Bol, Lit ''@angular/platform-browser-dynamic'',
                    Group 1 (Seq [Opt (Lit ''/''), Star Dot])]) moduleId of
         Some regMatch \<Rightarrow>
           replace (''ng.platformBrowserDynamic'' @ template_value (regMatch 1)) ''/'' ''.''
       | None \<Rightarrow>
      (case RegExp_exec
              (Seq [Bol, Lit ''@angular/platform-browser'',
                    Group 1 (Seq [Opt (Lit ''/''), Star Dot])]) moduleId of
         Some regMatch \<Rightarrow>
           replace (''ng.platformBrowser'' @ template_value (regMatch 1)) ''/'' ''.''
       | None \<Rightarrow>
      (case RegExp_exec (Seq [Bol, Lit ''@angular/'', Group 1 (Plus Dot)]) moduleId of
         Some regMatch \<Rightarrow>
           replace (''ng.'' @ template_value (regMatch 1)) ''/'' ''.''
       | None \<Rightarrow>
      if RegExp_test (Seq [Bol, Lit ''rxjs/'', Opt (Group 1 (Lit ''add/'')), Lit ''observable''])
           moduleId
      then ''Rx.Observable''
      else if RegExp_test (Seq [Bol, Lit ''rxjs/scheduler'']) moduleId
      then ''Rx.Scheduler''
      else if RegExp_test (Seq [Bol, Lit ''rxjs/symbol'']) moduleId
      then ''Rx.Symbol''
      else if RegExp_test (Seq [Bol, Lit ''rxjs/'', Opt (Group 1 (Lit ''add/'')), Lit ''operator''])
           moduleId
      then ''Rx.Observable.prototype''
      else if RegExp_test (Seq [Bol, Lit ''rxjs/'', Plus (NoneOf ''/''), Eol]) moduleId
      then ''Rx''
      else ''''))))"

section \<open>The diagnostic handler\<close>

text \<open>
  The \<^verbatim>\<open>onwarn\<close> handler that \<^verbatim>\<open>rollup\<close> passes to the bundler. A diagnostic of the
  bundler has an optional \<^verbatim>\<open>code\<close> and a \<^verbatim>\<open>message\<close>.
\<close>

record 'm Warning =
  code :: "string option"
  message :: 'm

text \<open>
  Modelled from the spec: the logging collaborator (\<^verbatim>\<open>../util/log\<close>, whose code is not
  among the sources), which exposes debug-level and warn-level message sinks. It is the
  state the handler acts on: the list of the calls it has received, oldest first, so
  that \<^verbatim>\<open>log.warn(m)\<close> appends \<open>Warn m\<close>.
\<close>

datatype 'm log_call = Debug 'm | Warn 'm

definition log_warn :: "'m \<Rightarrow> 'm log_call list \<Rightarrow> 'm log_call list" where
  "log_warn m calls = calls @ [Warn m]"

text \<open>
  The handler itself has no \<^verbatim>\<open>throw\<close>: it returns at once for the code
  \<open>THIS_IS_UNDEFINED\<close>, and after one call of \<^verbatim>\<open>log.warn\<close> otherwise.
\<close>

definition onwarn :: "'m Warning \<Rightarrow> 'm log_call list \<Rightarrow> 'm log_call list" where
  "onwarn warning calls =
     (if code warning = Some ''THIS_IS_UNDEFINED'' then calls
      else log_warn (message warning) calls)"

section \<open>Properties of the classifier\<close>

lemma startsWith_iff: "startsWith s p = (\<exists>t. s = p @ t)"
  by (induction s p rule: startsWith.induct) auto

lemma array_some_iff: "array_some f xs = (\<exists>x. x \<in> set xs \<and> f x)"
  by (induction xs) auto

lemma posix_isAbsolute_iff: "posix_isAbsolute p = startsWith p ''/''"
  by (cases p) (simp_all add: posix_isAbsolute_def)

lemma indexOf_ge: "- 1 \<le> indexOf s p"
  by (induction s) (auto simp: Let_def)

lemma indexOf_nonneg_iff: "(0 \<le> indexOf s p) = (\<exists>a b. s = a @ p @ b)"
proof (induction s)
  case Nil
  then show ?case by auto
next
  case (Cons c cs)
  show ?case
  proof (cases "startsWith (c # cs) p")
    case True
    then obtain t where "c # cs = p @ t" by (auto simp: startsWith_iff)
    then have "c # cs = [] @ p @ t" by simp
    then have "\<exists>a b. c # cs = a @ p @ b" by blast
    with True show ?thesis by simp
  next
    case False
    have "(\<exists>a b. c # cs = a @ p @ b) = (\<exists>a b. cs = a @ p @ b)"
    proof
      assume "\<exists>a b. c # cs = a @ p @ b"
      then obtain a b where ab: "c # cs = a @ p @ b" by blast
      from False ab have "a \<noteq> []" by (auto simp: startsWith_iff)
      then obtain a' where "a = c # a'" using ab by (cases a) auto
      with ab have "cs = a' @ p @ b" by simp
      then show "\<exists>a b. cs = a @ p @ b" by blast
    next
      assume "\<exists>a b. cs = a @ p @ b"
      then obtain a b where "cs = a @ p @ b" by blast
      then have "c # cs = (c # a) @ p @ b" by simp
      then show "\<exists>a b. c # cs = a @ p @ b" by blast
    qed
    with False Cons show ?thesis
      using indexOf_ge [of cs p] by (auto simp: Let_def)
  qed
qed

lemma externalModuleIdStrategy_conditions:
  "externalModuleIdStrategy isAbsolute moduleId embedded =
     (True \<notin> set (notExternalConditions isAbsolute moduleId (default_param [] embedded)))"
  by (auto simp: externalModuleIdStrategy_def notExternalConditions_def Let_def)

text \<open>
  Claim C1. An identifier that is an absolute path, or starts with \<open>.\<close>, or starts with
  \<open>/\<close>, is classified as not external, whatever the embedded-module argument is (left
  out, empty or any list) and whatever platform rule decides absoluteness.
\<close>

theorem local_ids_not_external:
  assumes "isAbsolute moduleId \<or> startsWith moduleId ''.'' \<or> startsWith moduleId ''/''"
  shows "externalModuleIdStrategy isAbsolute moduleId embedded = False"
  using assms by (auto simp: externalModuleIdStrategy_def Let_def)

theorem local_ids_not_external_witness:
  "posix_isAbsolute ''/srv/pkg/index.js'' \<and>
   externalModuleIdStrategy posix_isAbsolute ''/srv/pkg/index.js'' (Some [''lodash'']) = False \<and>
   startsWith ''./util'' ''.'' \<and>
   externalModuleIdStrategy win32_isAbsolute ''./util'' None = False"
proof -
  have a: "posix_isAbsolute ''/srv/pkg/index.js''"
    by (simp add: posix_isAbsolute_def)
  have b: "startsWith ''./util'' ''.''"
    by simp
  show ?thesis
    using a b
      local_ids_not_external [of posix_isAbsolute "''/srv/pkg/index.js''" "Some [''lodash'']"]
      local_ids_not_external [of win32_isAbsolute "''./util''" None]
    by blast
qed

text \<open>
  Claim C2. An identifier that is a member of the embedded-module set is classified as
  not external, also when no other operand of the guard holds for it (the witness
  takes \<open>lodash\<close>, which is external as soon as it is not embedded).
\<close>

theorem embedded_ids_not_external:
  assumes "moduleId \<in> set (default_param [] embedded)"
  shows "externalModuleIdStrategy isAbsolute moduleId embedded = False"
  using assms by (auto simp: externalModuleIdStrategy_def Let_def array_some_iff)

theorem embedded_ids_not_external_witness:
  "''lodash'' \<in> set (default_param [] (Some [''tslib'', ''lodash''])) \<and>
   externalModuleIdStrategy posix_isAbsolute ''lodash'' (Some [''tslib'', ''lodash'']) = False \<and>
   externalModuleIdStrategy posix_isAbsolute ''lodash'' (Some []) = True"
proof -
  have m: "''lodash'' \<in> set (default_param [] (Some [''tslib'', ''lodash'']))"
    by (simp add: default_param_def)
  have e: "externalModuleIdStrategy posix_isAbsolute ''lodash'' (Some []) = True"
    by (simp add: externalModuleIdStrategy_def default_param_def posix_isAbsolute_def)
  show ?thesis
    using m e embedded_ids_not_external [of "''lodash''" "Some [''tslib'', ''lodash'']" posix_isAbsolute] by blast
qed

text \<open>
  Claim C3, as stated: an identifier that is not an absolute path, starts with neither
  \<open>.\<close> nor \<open>/\<close> and is not embedded is external. The guard has a fourth operand that the
  statement leaves out: the identifier \<open>commonjsHelpers\<close> meets every hypothesis and is
  classified as not external.
\<close>

theorem helper_id_counterexample:
  "\<not> posix_isAbsolute ''commonjsHelpers'' \<and>
   \<not> win32_isAbsolute ''commonjsHelpers'' \<and>
   \<not> startsWith ''commonjsHelpers'' ''.'' \<and>
   \<not> startsWith ''commonjsHelpers'' ''/'' \<and>
   ''commonjsHelpers'' \<notin> set (default_param [] (Some [''lodash''])) \<and>
   externalModuleIdStrategy posix_isAbsolute ''commonjsHelpers'' (Some [''lodash'']) = False \<and>
   externalModuleIdStrategy win32_isAbsolute ''commonjsHelpers'' (Some [''lodash'']) = False"
  by (simp add: externalModuleIdStrategy_def default_param_def posix_isAbsolute_def
      win32_isAbsolute_def isPathSeparator_def isWindowsDeviceRoot_def)

text \<open>
  Claim C3, amended. An identifier that is not an absolute path, starts with neither
  \<open>.\<close> nor \<open>/\<close>, does not contain the text \<open>commonjsHelpers\<close> and is not a member of the
  embedded-module set is classified as external.
\<close>

theorem other_ids_external:
  assumes "\<not> isAbsolute moduleId"
    and "\<not> startsWith moduleId ''.''"
    and "\<not> startsWith moduleId ''/''"
    and "\<not> (\<exists>a b. moduleId = a @ ''commonjsHelpers'' @ b)"
    and "moduleId \<notin> set (default_param [] embedded)"
  shows "externalModuleIdStrategy isAbsolute moduleId embedded = True"
proof -
  have "\<not> 0 \<le> indexOf moduleId ''commonjsHelpers''"
    using assms(4) by (simp only: indexOf_nonneg_iff not_False_eq_True)
  moreover have "\<not> array_some (\<lambda>x. x = moduleId) (default_param [] embedded)"
    using assms(5) by (simp add: array_some_iff)
  ultimately show ?thesis
    using assms(1-3) by (simp add: externalModuleIdStrategy_def Let_def)
qed

theorem other_ids_external_witness:
  "\<not> posix_isAbsolute ''lodash'' \<and>
   \<not> startsWith ''lodash'' ''.'' \<and>
   \<not> startsWith ''lodash'' ''/'' \<and>
   \<not> (\<exists>a b. ''lodash'' = a @ ''commonjsHelpers'' @ b) \<and>
   ''lodash'' \<notin> set (default_param [] (Some [''tslib''])) \<and>
   externalModuleIdStrategy posix_isAbsolute ''lodash'' (Some [''tslib'']) = True"
proof -
  have a: "\<not> posix_isAbsolute ''lodash''"
    by (simp add: posix_isAbsolute_def)
  have b: "\<not> startsWith ''lodash'' ''.''" and c: "\<not> startsWith ''lodash'' ''/''"
    by simp_all
  have "\<not> 0 \<le> indexOf ''lodash'' ''commonjsHelpers''"
    by simp
  then have d: "\<not> (\<exists>a b. ''lodash'' = a @ ''commonjsHelpers'' @ b)"
    by (simp only: indexOf_nonneg_iff not_False_eq_True)
  have e: "''lodash'' \<notin> set (default_param [] (Some [''tslib'']))"
    by (simp add: default_param_def)
  show ?thesis
    using a b c d e other_ids_external [of posix_isAbsolute "''lodash''" "Some [''tslib'']"] by blast
qed

text \<open>
  Claim C8, as stated: no identifier satisfies more than one of the five operands of
  the guard. On POSIX an absolute path satisfies the first and the third; one that leads
  to the helper file and is listed as embedded satisfies the fourth and the fifth too;
  and a relative path of that kind satisfies the second, the fourth and the fifth.
\<close>

theorem conditions_overlap_counterexample:
  "notExternalConditions posix_isAbsolute ''/srv/pkg/index.js'' [] =
     [True, False, True, False, False] \<and>
   notExternalConditions posix_isAbsolute ''/srv/commonjsHelpers.js'' [''/srv/commonjsHelpers.js''] =
     [True, False, True, True, True] \<and>
   notExternalConditions win32_isAbsolute ''./commonjsHelpers.js'' [''./commonjsHelpers.js''] =
     [False, True, False, True, True]"
  by (simp add: notExternalConditions_def posix_isAbsolute_def win32_isAbsolute_def
      isPathSeparator_def isWindowsDeviceRoot_def)

text \<open>
  Claim C8, amended. The five operands are not mutually exclusive. The one exclusion
  among them: an identifier that starts with \<open>.\<close> neither starts with \<open>/\<close> nor is an
  absolute path (under the POSIX rule and under the Windows rule). Every other pair of
  operands holds together in one of the three identifiers above.
\<close>

theorem dot_excludes_slash_and_absolute:
  assumes "startsWith moduleId ''.''"
  shows "\<not> startsWith moduleId ''/'' \<and> \<not> posix_isAbsolute moduleId \<and>
         \<not> win32_isAbsolute moduleId"
proof -
  from assms obtain t where "moduleId = CHR ''.'' # t"
    by (auto simp: startsWith_iff)
  then show ?thesis
    by (simp add: posix_isAbsolute_def win32_isAbsolute_def isPathSeparator_def
        isWindowsDeviceRoot_def split: list.splits)
qed

theorem dot_excludes_slash_and_absolute_witness:
  "startsWith ''./util'' ''.'' \<and> \<not> startsWith ''./util'' ''/'' \<and>
   \<not> posix_isAbsolute ''./util'' \<and> \<not> win32_isAbsolute ''./util''"
proof -
  have d: "startsWith ''./util'' ''.''"
    by simp
  show ?thesis
    using d dot_excludes_slash_and_absolute [OF d] by blast
qed

section \<open>Properties of the matcher\<close>

text \<open>
  A pattern that starts with \<^verbatim>\<open>^\<close> can only match at position 0, an anchored literal
  tests for a prefix, and \<^verbatim>\<open>.*\<close> and \<^verbatim>\<open>.+\<close> first try to read up to the next line
  terminator.
\<close>

lemma exec_from_Bol_later:
  "length s < length inp \<Longrightarrow> exec_from (Seq (Bol # rs)) inp s = None"
  by (induction s) simp_all

lemma RegExp_exec_Bol:
  "RegExp_exec (Seq (Bol # rs)) inp =
     (case seq_matchers (map (rmatch inp) rs) (inp, Map.empty) of
        [] \<Rightarrow> None
      | (s', c) # _ \<Rightarrow> Some (c(0 \<mapsto> take (length inp - length s') inp)))"
  by (cases inp) (simp_all add: RegExp_exec_def exec_from_Bol_later split: list.splits)

lemma RegExp_test_anchored_literal:
  "RegExp_test (Seq [Bol, Lit p]) inp = startsWith inp p"
  by (simp add: RegExp_test_def RegExp_exec_Bol)

lemma star_Dot_stop:
  "s = [] \<or> isLineTerminator (hd s) \<Longrightarrow> star_matcher (rmatch inp Dot) (s, c) = [(s, c)]"
  by (subst star_matcher.simps) (auto split: list.splits)

lemma star_Dot_step:
  "\<not> isLineTerminator x \<Longrightarrow>
   star_matcher (rmatch inp Dot) (x # xs, c) =
     star_matcher (rmatch inp Dot) (xs, c) @ [(x # xs, c)]"
  by (subst star_matcher.simps) (simp add: advances_def)

lemma star_Dot_nonempty: "star_matcher (rmatch inp Dot) (s, c) \<noteq> []"
  by (subst star_matcher.simps) simp

lemma star_Dot_hd:
  "hd (star_matcher (rmatch inp Dot) (s, c)) =
     (dropWhile (\<lambda>x. \<not> isLineTerminator x) s, c)"
proof (induction s)
  case Nil
  have "star_matcher (rmatch inp Dot) ([], c) = [([], c)]"
    by (intro star_Dot_stop) simp
  then show ?case by (simp del: rmatch.simps)
next
  case (Cons x xs)
  show ?case
  proof (cases "isLineTerminator x")
    case True
    then have "star_matcher (rmatch inp Dot) (x # xs, c) = [(x # xs, c)]"
      by (intro star_Dot_stop) simp
    with True show ?thesis by (simp del: rmatch.simps)
  next
    case False
    with Cons star_Dot_nonempty [of inp xs c] show ?thesis
      by (simp add: star_Dot_step del: rmatch.simps)
  qed
qed

lemma startsWith_append: "startsWith s (p @ q) \<Longrightarrow> startsWith s p"
  by (auto simp: startsWith_iff)

lemma take_length_takeWhile: "take (length (takeWhile P xs)) xs = takeWhile P xs"
  by (induction xs) auto

lemma take_takeWhile:
  "take (length xs - length (dropWhile P xs)) xs = takeWhile P xs"
proof -
  have "length xs = length (takeWhile P xs) + length (dropWhile P xs)"
    by (metis length_append takeWhile_dropWhile_id)
  then show ?thesis by (simp add: take_length_takeWhile)
qed

lemma seq_matchers_last: "concat (map (seq_matchers []) sts) = sts"
  by (induction sts) simp_all

lemma seq_Dot_star:
  "\<not> isLineTerminator x \<Longrightarrow>
   seq_matchers [rmatch inp Dot, star_matcher (rmatch inp Dot)] (x # xs, c) =
     star_matcher (rmatch inp Dot) (xs, c)"
  by (simp add: seq_matchers_last)

lemma Plus_Dot_first:
  assumes "\<not> isLineTerminator x"
  shows "\<exists>rest. rmatch inp (Group 1 (Plus Dot)) (x # xs, c) =
     (dropWhile (\<lambda>y. \<not> isLineTerminator y) xs,
      c(1 \<mapsto> takeWhile (\<lambda>y. \<not> isLineTerminator y) (x # xs))) # rest"
proof -
  let ?P = "\<lambda>y. \<not> isLineTerminator y"
  let ?star = "star_matcher (rmatch inp Dot) (xs, c)"
  have ne: "?star \<noteq> []" by (rule star_Dot_nonempty)
  then obtain t where st: "?star = (dropWhile ?P xs, c) # t"
    using star_Dot_hd [of inp xs c] by (cases ?star) auto
  have len: "length (dropWhile ?P xs) \<le> length xs"
    by (rule length_dropWhile_le)
  have "take (length (x # xs) - length (dropWhile ?P xs)) (x # xs) = x # takeWhile ?P xs"
    using take_takeWhile [of xs ?P] len by (simp add: Suc_diff_le)
  then have cap: "take (length (x # xs) - length (dropWhile ?P xs)) (x # xs) = takeWhile ?P (x # xs)"
    using assms by simp
  have "rmatch inp (Group 1 (Plus Dot)) (x # xs, c) =
      map (\<lambda>(s', c'). (s', c'(1 \<mapsto> take (length (x # xs) - length s') (x # xs)))) ?star"
    using seq_Dot_star [OF assms, of inp xs c] by (simp add: group_matcher_def)
  with st cap show ?thesis by simp
qed

section \<open>Properties of the resolver\<close>

lemmas umd_eval = umdModuleIdStrategy_def Let_def default_param_def truthy_def
  template_value_def RegExp_test_def RegExp_exec_def opt_matcher_def group_matcher_def
  star_matcher.simps advances_def isLineTerminator_def

lemma umdModuleIdStrategy_default:
  "umdModuleIdStrategy moduleId None = umdModuleIdStrategy moduleId (Some Map.empty)"
  by (simp add: umdModuleIdStrategy_def default_param_def)

text \<open>
  Claim C4, as stated: a key of the override table always gets the table's value. The
  lookup is tested for truthiness, so a key whose value is the empty string falls
  through to the pattern rules: the table maps \<open>@angular/core\<close> to the empty string and
  the resolver answers \<open>ng.core\<close>.
\<close>

theorem empty_override_counterexample:
  "[''@angular/core'' \<mapsto> ''''] ''@angular/core'' = Some '''' \<and>
   umdModuleIdStrategy ''@angular/core'' (Some [''@angular/core'' \<mapsto> '''']) = ''ng.core''"
  by (simp add: umd_eval)

text \<open>
  Claim C4, amended. For an identifier that is a key of the override table with a value
  that is not the empty string, the resolver returns that value, also when the
  identifier matches a pattern rule (the witness overrides \<open>@angular/core\<close>, which the
  third rule would name \<open>ng.core\<close>).
\<close>

theorem nonempty_override_wins:
  assumes "umdModuleIds moduleId = Some name" and "name \<noteq> ''''"
  shows "umdModuleIdStrategy moduleId (Some umdModuleIds) = name"
  using assms by (simp add: umdModuleIdStrategy_def Let_def default_param_def truthy_def)

theorem nonempty_override_wins_witness:
  "[''@angular/core'' \<mapsto> ''angularCore''] ''@angular/core'' = Some ''angularCore'' \<and>
   ''angularCore'' \<noteq> '''' \<and>
   umdModuleIdStrategy ''@angular/core'' (Some [''@angular/core'' \<mapsto> ''angularCore'']) =
     ''angularCore'' \<and>
   umdModuleIdStrategy ''@angular/core'' (Some Map.empty) = ''ng.core''"
proof -
  have k: "[''@angular/core'' \<mapsto> ''angularCore''] ''@angular/core'' = Some ''angularCore''"
    by simp
  have n: "''angularCore'' \<noteq> ''''"
    by simp
  have p: "umdModuleIdStrategy ''@angular/core'' (Some Map.empty) = ''ng.core''"
    by (simp add: umd_eval)
  show ?thesis
    using k n p
      nonempty_override_wins
        [of "[''@angular/core'' \<mapsto> ''angularCore'']" "''@angular/core''" "''angularCore''"]
    by blast
qed

text \<open>
  Claim C5. With an empty override table the resolver names
  \<open>@angular/platform-browser-dynamic\<close> \<open>ng.platformBrowserDynamic\<close>, its \<open>/testing\<close> entry
  \<open>ng.platformBrowserDynamic.testing\<close>, and \<open>@angular/core\<close> \<open>ng.core\<close>.
\<close>

theorem angular_names:
  "umdModuleIdStrategy ''@angular/platform-browser-dynamic'' (Some Map.empty) =
     ''ng.platformBrowserDynamic'' \<and>
   umdModuleIdStrategy ''@angular/platform-browser-dynamic/testing'' (Some Map.empty) =
     ''ng.platformBrowserDynamic.testing'' \<and>
   umdModuleIdStrategy ''@angular/core'' (Some Map.empty) = ''ng.core''"
  by (simp add: umd_eval)

text \<open>
  Claim C6. With an empty override table the resolver answers \<open>Rx.Observable\<close> for
  \<open>rxjs/observable\<close> and for \<open>rxjs/add/observable\<close>, \<open>Rx\<close> for \<open>rxjs/Subject\<close>, and the empty
  string for \<open>lodash\<close>.
\<close>

theorem rxjs_names:
  "umdModuleIdStrategy ''rxjs/observable'' (Some Map.empty) = ''Rx.Observable'' \<and>
   umdModuleIdStrategy ''rxjs/add/observable'' (Some Map.empty) = ''Rx.Observable'' \<and>
   umdModuleIdStrategy ''rxjs/Subject'' (Some Map.empty) = ''Rx'' \<and>
   umdModuleIdStrategy ''lodash'' (Some Map.empty) = ''''"
  by (simp add: umd_eval)

text \<open>
  The third rule on every identifier that the first two rules do not take: what follows
  \<open>@angular/\<close>, up to the first line terminator, is appended to \<open>ng.\<close>, and the first \<open>/\<close>
  of the result becomes a \<open>.\<close>. A remainder \<open>a/b\<close> therefore gives \<open>ng.a.b\<close> with \<open>b\<close> as it
  is, separators included.
\<close>

lemma framework_rule_exec:
  assumes "\<not> isLineTerminator x"
  shows "\<exists>m. RegExp_exec (Seq [Bol, Lit ''@angular/'', Group 1 (Plus Dot)])
               (''@angular/'' @ x # xs) = Some m \<and>
             m 1 = Some (takeWhile (\<lambda>y. \<not> isLineTerminator y) (x # xs))"
proof -
  let ?inp = "''@angular/'' @ x # xs"
  obtain rest where g: "rmatch ?inp (Group 1 (Plus Dot)) (x # xs, Map.empty) =
      (dropWhile (\<lambda>y. \<not> isLineTerminator y) xs,
       [1 \<mapsto> takeWhile (\<lambda>y. \<not> isLineTerminator y) (x # xs)]) # rest"
    using Plus_Dot_first [OF assms, of ?inp xs Map.empty] by blast
  have l: "rmatch ?inp (Lit ''@angular/'') (?inp, Map.empty) = [(x # xs, Map.empty)]"
    by simp
  have "seq_matchers (map (rmatch ?inp) [Lit ''@angular/'', Group 1 (Plus Dot)]) (?inp, Map.empty) =
      rmatch ?inp (Group 1 (Plus Dot)) (x # xs, Map.empty)"
    using l by (simp add: seq_matchers_last del: rmatch.simps)
  with g show ?thesis
    by (simp add: RegExp_exec_Bol del: rmatch.simps)
qed

lemma replace_first_only:
  "CHR ''/'' \<notin> set a \<Longrightarrow> replace (a @ ''/'' @ b) ''/'' ''.'' = a @ ''.'' @ b"
  by (induction a) auto

lemma exec_anchored_literal_fails:
  "\<not> startsWith inp p \<Longrightarrow> RegExp_exec (Seq (Bol # Lit p # rs)) inp = None"
  by (simp add: RegExp_exec_Bol)

lemma framework_rule:
  assumes pb: "\<not> startsWith (x # xs) ''platform-browser''"
    and x: "\<not> isLineTerminator x"
  shows "umdModuleIdStrategy (''@angular/'' @ x # xs) (Some Map.empty) =
     replace (''ng.'' @ takeWhile (\<lambda>y. \<not> isLineTerminator y) (x # xs)) ''/'' ''.''"
proof -
  let ?inp = "''@angular/'' @ x # xs"
  have pbd: "\<not> startsWith (x # xs) ''platform-browser-dynamic''"
    using pb startsWith_append [of "x # xs" "''platform-browser''" "''-dynamic''"] by auto
  have r1: "RegExp_exec (Seq [Bol, Lit ''@angular/platform-browser-dynamic'',
      Group 1 (Seq [Opt (Lit ''/''), Star Dot])]) ?inp = None"
  proof (rule exec_anchored_literal_fails)
    show "\<not> startsWith ?inp ''@angular/platform-browser-dynamic''"
      using pbd by simp
  qed
  have r2: "RegExp_exec (Seq [Bol, Lit ''@angular/platform-browser'',
      Group 1 (Seq [Opt (Lit ''/''), Star Dot])]) ?inp = None"
  proof (rule exec_anchored_literal_fails)
    show "\<not> startsWith ?inp ''@angular/platform-browser''"
      using pb by simp
  qed
  obtain m where r3: "RegExp_exec (Seq [Bol, Lit ''@angular/'', Group 1 (Plus Dot)]) ?inp = Some m"
    and m1: "m 1 = Some (takeWhile (\<lambda>y. \<not> isLineTerminator y) (x # xs))"
    using framework_rule_exec [OF x, of xs] by blast
  show ?thesis
    unfolding umdModuleIdStrategy_def Let_def r1 r2 r3
    using m1 by (simp add: default_param_def truthy_def template_value_def)
qed

lemma startsWith_before:
  "startsWith (a @ c # b) p \<Longrightarrow> c \<notin> set p \<Longrightarrow> startsWith a p"
  by (induction a p rule: startsWith.induct) auto

lemma deep_import_general:
  assumes "CHR ''/'' \<notin> set (x # xs)"
    and "\<not> startsWith (x # xs) ''platform-browser''"
    and "list_all (\<lambda>y. \<not> isLineTerminator y) (x # xs @ ''/'' @ b)"
  shows "umdModuleIdStrategy (''@angular/'' @ x # xs @ ''/'' @ b) (Some Map.empty) =
     ''ng.'' @ x # xs @ ''.'' @ b"
proof -
  let ?P = "\<lambda>y. \<not> isLineTerminator y"
  have x: "\<not> isLineTerminator x"
    using assms(3) by simp
  have pb: "\<not> startsWith (x # xs @ ''/'' @ b) ''platform-browser''"
    using assms(2) startsWith_before [of "x # xs" "CHR ''/''" b "''platform-browser''"]
    by auto
  have tw: "takeWhile ?P (x # xs @ ''/'' @ b) = x # xs @ ''/'' @ b"
    using assms(3) by (simp add: takeWhile_eq_all_conv list_all_iff)
  have "umdModuleIdStrategy (''@angular/'' @ x # xs @ ''/'' @ b) (Some Map.empty) =
      replace (''ng.'' @ takeWhile ?P (x # xs @ ''/'' @ b)) ''/'' ''.''"
    using framework_rule [OF pb x] by simp
  also have "\<dots> = replace ((''ng.'' @ x # xs) @ ''/'' @ b) ''/'' ''.''"
    using tw by simp
  also have "\<dots> = (''ng.'' @ x # xs) @ ''.'' @ b"
    using assms(1) by (intro replace_first_only) simp
  finally show ?thesis by simp
qed

text \<open>
  Claim C7 says that every \<open>/\<close> of the remainder becomes a \<open>.\<close>. The resolver calls
  \<^verbatim>\<open>replace("/", ".")\<close> with a string pattern, which replaces the first \<open>/\<close> only: for
  \<open>@angular/common/http/testing\<close> the second separator is still there.
\<close>

theorem deep_import_keeps_separator:
  "umdModuleIdStrategy ''@angular/common/http/testing'' (Some Map.empty) =
     ''ng.common.http/testing''"
  by (simp add: umd_eval)

text \<open>
  The \<open>observable\<close> rule on every identifier: it matches exactly the identifiers that
  start with \<open>rxjs/observable\<close> or with \<open>rxjs/add/observable\<close>, letter for letter. The
  three \<open>@angular\<close> rules match no identifier that does not start with \<open>@angular/\<close>.
\<close>

lemma startsWith_append_iff:
  "startsWith s (p @ q) = (startsWith s p \<and> startsWith (drop (length p) s) q)"
  by (induction s p rule: startsWith.induct) auto

lemma observable_rule_iff:
  "RegExp_test (Seq [Bol, Lit ''rxjs/'', Opt (Group 1 (Lit ''add/'')), Lit ''observable'']) s =
     (startsWith s ''rxjs/observable'' \<or> startsWith s ''rxjs/add/observable'')"
proof (cases "startsWith s ''rxjs/''")
  case False
  then have "\<not> startsWith s ''rxjs/observable''" and "\<not> startsWith s ''rxjs/add/observable''"
    using startsWith_append [of s "''rxjs/''" "''observable''"]
      startsWith_append [of s "''rxjs/''" "''add/observable''"] by auto
  moreover have "\<not> RegExp_test (Seq [Bol, Lit ''rxjs/'', Opt (Group 1 (Lit ''add/'')), Lit ''observable'']) s"
    using False exec_anchored_literal_fails [of s "''rxjs/''"] by (simp add: RegExp_test_def)
  ultimately show ?thesis by simp
next
  case True
  then obtain t where s: "s = ''rxjs/'' @ t"
    by (auto simp: startsWith_iff)
  have a: "startsWith s ''rxjs/observable'' = startsWith t ''observable''"
    using startsWith_append_iff [of s "''rxjs/''" "''observable''"] s by simp
  have b: "startsWith s ''rxjs/add/observable'' =
      (startsWith t ''add/'' \<and> startsWith (drop (length ''add/'') t) ''observable'')"
    using startsWith_append_iff [of s "''rxjs/''" "''add/observable''"]
      startsWith_append_iff [of t "''add/''" "''observable''"] s by simp
  have "RegExp_test (Seq [Bol, Lit ''rxjs/'', Opt (Group 1 (Lit ''add/'')), Lit ''observable'']) s =
      (startsWith t ''observable'' \<or> (startsWith t ''add/'' \<and> startsWith (drop (length ''add/'') t) ''observable''))"
    unfolding s
    by (simp add: RegExp_test_def RegExp_exec_Bol opt_matcher_def group_matcher_def advances_def
        split: list.splits)
  with a b show ?thesis by blast
qed

lemma framework_rules_need_prefix:
  assumes "\<not> startsWith s ''@angular/''"
  shows "RegExp_exec (Seq [Bol, Lit ''@angular/platform-browser-dynamic'',
            Group 1 (Seq [Opt (Lit ''/''), Star Dot])]) s = None"
    and "RegExp_exec (Seq [Bol, Lit ''@angular/platform-browser'',
            Group 1 (Seq [Opt (Lit ''/''), Star Dot])]) s = None"
    and "RegExp_exec (Seq [Bol, Lit ''@angular/'', Group 1 (Plus Dot)]) s = None"
proof -
  have "\<not> startsWith s ''@angular/platform-browser-dynamic''"
    using assms startsWith_append [of s "''@angular/''" "''platform-browser-dynamic''"] by auto
  then show "RegExp_exec (Seq [Bol, Lit ''@angular/platform-browser-dynamic'',
            Group 1 (Seq [Opt (Lit ''/''), Star Dot])]) s = None"
    by (rule exec_anchored_literal_fails)
  have "\<not> startsWith s ''@angular/platform-browser''"
    using assms startsWith_append [of s "''@angular/''" "''platform-browser''"] by auto
  then show "RegExp_exec (Seq [Bol, Lit ''@angular/platform-browser'',
            Group 1 (Seq [Opt (Lit ''/''), Star Dot])]) s = None"
    by (rule exec_anchored_literal_fails)
  show "RegExp_exec (Seq [Bol, Lit ''@angular/'', Group 1 (Plus Dot)]) s = None"
    using assms by (rule exec_anchored_literal_fails)
qed

text \<open>
  Claim C10. Matching is case-sensitive. With an empty override table the resolver
  answers \<open>Rx.Observable\<close> for exactly the identifiers that start with \<open>rxjs/observable\<close>
  or with \<open>rxjs/add/observable\<close> in lower case: \<open>rxjs/observable\<close> gets that name, and
  \<open>rxjs/Observable\<close> does not match the \<open>observable\<close> rule, matches the single-segment
  rule, and gets the name \<open>Rx\<close>.
\<close>

theorem patterns_case_sensitive:
  "(umdModuleIdStrategy moduleId (Some Map.empty) = ''Rx.Observable'') =
     (startsWith moduleId ''rxjs/observable'' \<or> startsWith moduleId ''rxjs/add/observable'') \<and>
   umdModuleIdStrategy ''rxjs/observable'' (Some Map.empty) = ''Rx.Observable'' \<and>
   umdModuleIdStrategy ''rxjs/Observable'' (Some Map.empty) = ''Rx'' \<and>
   \<not> RegExp_test (Seq [Bol, Lit ''rxjs/'', Opt (Group 1 (Lit ''add/'')), Lit ''observable''])
       ''rxjs/Observable'' \<and>
   RegExp_test (Seq [Bol, Lit ''rxjs/'', Plus (NoneOf ''/''), Eol]) ''rxjs/Observable''"
proof -
  have general:
    "(umdModuleIdStrategy moduleId (Some Map.empty) = ''Rx.Observable'') =
       (startsWith moduleId ''rxjs/observable'' \<or> startsWith moduleId ''rxjs/add/observable'')"
  proof (cases "RegExp_test (Seq [Bol, Lit ''rxjs/'', Opt (Group 1 (Lit ''add/'')), Lit ''observable''])
      moduleId")
    case True
    then have p: "startsWith moduleId ''rxjs/observable'' \<or> startsWith moduleId ''rxjs/add/observable''"
      by (simp only: observable_rule_iff)
    then have "startsWith moduleId ''rxjs/''"
      using startsWith_append [of moduleId "''rxjs/''" "''observable''"]
        startsWith_append [of moduleId "''rxjs/''" "''add/observable''"] by auto
    then have "\<not> startsWith moduleId ''@angular/''"
      by (auto simp: startsWith_iff)
    note none = framework_rules_need_prefix [OF this]
    have "umdModuleIdStrategy moduleId (Some Map.empty) = ''Rx.Observable''"
      unfolding umdModuleIdStrategy_def Let_def none
      using True by (simp add: default_param_def truthy_def)
    with p show ?thesis by simp
  next
    case False
    then have p: "\<not> (startsWith moduleId ''rxjs/observable'' \<or> startsWith moduleId ''rxjs/add/observable'')"
      by (simp only: observable_rule_iff not_False_eq_True)
    have "umdModuleIdStrategy moduleId (Some Map.empty) \<noteq> ''Rx.Observable''"
      unfolding umdModuleIdStrategy_def Let_def
      using False by (simp add: default_param_def truthy_def split: option.splits)
    with p show ?thesis by simp
  qed
  have lower: "umdModuleIdStrategy ''rxjs/observable'' (Some Map.empty) = ''Rx.Observable''"
    by (simp add: umd_eval)
  have upper: "umdModuleIdStrategy ''rxjs/Observable'' (Some Map.empty) = ''Rx''"
    by (simp add: umd_eval)
  have no_match:
    "\<not> RegExp_test (Seq [Bol, Lit ''rxjs/'', Opt (Group 1 (Lit ''add/'')), Lit ''observable''])
         ''rxjs/Observable''"
    by (simp add: umd_eval)
  have segment: "RegExp_test (Seq [Bol, Lit ''rxjs/'', Plus (NoneOf ''/''), Eol]) ''rxjs/Observable''"
    by (simp add: umd_eval)
  from general lower upper no_match segment show ?thesis
    by blast
qed

section \<open>Properties of the diagnostic handler\<close>

text \<open>
  Claim C9. The handler passes a diagnostic on to \<^verbatim>\<open>log.warn\<close> exactly when its code
  is not \<open>THIS_IS_UNDEFINED\<close>, and leaves the log untouched exactly when it is. It
  returns on every diagnostic, so a run of diagnostics is handled to its end: the log
  then holds, after what it held before, one warning for each diagnostic with another
  code, in the order of arrival.
\<close>

theorem onwarn_forwards_all_but_this_is_undefined:
  "(onwarn w calls = log_warn (message w) calls) = (code w \<noteq> Some ''THIS_IS_UNDEFINED'') \<and>
   (onwarn w calls = calls) = (code w = Some ''THIS_IS_UNDEFINED'') \<and>
   foldl (\<lambda>l d. onwarn d l) calls ds =
     calls @ map (\<lambda>d. Warn (message d)) (filter (\<lambda>d. code d \<noteq> Some ''THIS_IS_UNDEFINED'') ds)"
proof -
  have one: "(onwarn w calls = log_warn (message w) calls) = (code w \<noteq> Some ''THIS_IS_UNDEFINED'')"
    by (simp add: onwarn_def log_warn_def)
  have none: "(onwarn w calls = calls) = (code w = Some ''THIS_IS_UNDEFINED'')"
    by (simp add: onwarn_def log_warn_def)
  have run: "foldl (\<lambda>l d. onwarn d l) calls ds =
     calls @ map (\<lambda>d. Warn (message d)) (filter (\<lambda>d. code d \<noteq> Some ''THIS_IS_UNDEFINED'') ds)"
    by (induction ds arbitrary: calls) (simp_all add: onwarn_def log_warn_def)
  from one none run show ?thesis by blast
qed

end
